theory Spec2Isabelle
  imports Main "HOL-Library.Sublist"
begin

section \<open>JavaScript values and strings\<close>

text \<open>
  The workflow state holds search results typed \<^verbatim>\<open>any[]\<close>. A result item is a JSON
  value. Strings are ASCII text (one \<^typ>\<open>char\<close> per UTF-16 unit). A number is carried
  as the text JavaScript prints for it (\<open>''0.2026''\<close>, \<open>''2.026e+21''\<close>), which is what
  \<^verbatim>\<open>String\<close> and \<^verbatim>\<open>JSON.stringify\<close> give for every finite number; parsed JSON has no
  other numbers.
\<close>

datatype json =
    JNull
  | JBool bool
  | JNum string
  | JStr string
  | JArr "json list"
  | JObj "(string \<times> json) list"

text \<open>
  What a \<^verbatim>\<open>throw\<close> carries: an \<^verbatim>\<open>Error\<close> with its message (a \<^verbatim>\<open>TypeError\<close> and a
  \<^verbatim>\<open>ReferenceError\<close> are such), or any other value.
\<close>

datatype exn =
    Error string
  | TypeError string
  | ReferenceError string
  | Thrown json

fun instanceof_Error :: "exn \<Rightarrow> bool" where
  "instanceof_Error (Error m) = True"
| "instanceof_Error (TypeError m) = True"
| "instanceof_Error (ReferenceError m) = True"
| "instanceof_Error (Thrown v) = False"

fun error_message :: "exn \<Rightarrow> string" where
  "error_message (Error m) = m"
| "error_message (TypeError m) = m"
| "error_message (ReferenceError m) = m"
| "error_message (Thrown v) = []"

fun digits :: "nat \<Rightarrow> string" where
  "digits n =
     (if n < 10 then [''0123456789'' ! n]
      else digits (n div 10) @ [''0123456789'' ! (n mod 10)])"

declare digits.simps [simp del]

text \<open>
  \<^verbatim>\<open>String(n)\<close> on the integer a calendar year is. The years of a \<^verbatim>\<open>Date\<close> lie within
  \<open>\<plusminus>275760\<close>, where JavaScript prints an integer in plain decimal.
\<close>

definition String_of_number :: "int \<Rightarrow> string" where
  "String_of_number n = (if n < 0 then CHR ''-'' # digits (nat (- n)) else digits (nat n))"

text \<open>\<^verbatim>\<open>Array.prototype.join\<close> on strings.\<close>

fun join :: "string \<Rightarrow> string list \<Rightarrow> string" where
  "join sep [] = []"
| "join sep [x] = x"
| "join sep (x # y # ys) = x @ sep @ join sep (y # ys)"

definition hex_digit :: "nat \<Rightarrow> char" where
  "hex_digit n = ''0123456789abcdef'' ! n"

text \<open>
  \<^verbatim>\<open>JSON.stringify\<close>: a string is quoted, with the quote, the backslash and the control
  characters escaped; an array and an object list their members without spaces.
\<close>

definition quote_char :: "char \<Rightarrow> string" where
  "quote_char c =
     (if c = CHR 0x22 then [CHR 0x5C, CHR 0x22]
      else if c = CHR 0x5C then [CHR 0x5C, CHR 0x5C]
      else if c = CHR 0x08 then [CHR 0x5C, CHR ''b'']
      else if c = CHR 0x0C then [CHR 0x5C, CHR ''f'']
      else if c = CHR 0x0A then [CHR 0x5C, CHR ''n'']
      else if c = CHR 0x0D then [CHR 0x5C, CHR ''r'']
      else if c = CHR 0x09 then [CHR 0x5C, CHR ''t'']
      else if (of_char c :: nat) < 32
        then [CHR 0x5C, CHR ''u'', CHR ''0'', CHR ''0'',
              hex_digit (of_char c div 16), hex_digit (of_char c mod 16)]
      else [c])"

definition QuoteJSONString :: "string \<Rightarrow> string" where
  "QuoteJSONString s = CHR 0x22 # concat (map quote_char s) @ [CHR 0x22]"

fun JSON_stringify :: "json \<Rightarrow> string" where
  "JSON_stringify JNull = ''null''"
| "JSON_stringify (JBool b) = (if b then ''true'' else ''false'')"
| "JSON_stringify (JNum t) = t"
| "JSON_stringify (JStr s) = QuoteJSONString s"
| "JSON_stringify (JArr xs) = ''['' @ join '','' (map JSON_stringify xs) @ '']''"
| "JSON_stringify (JObj kvs) =
     ''{'' @ join '','' (map (\<lambda>(k, v). QuoteJSONString k @ '':'' @ JSON_stringify v) kvs) @ ''}''"

text \<open>\<^verbatim>\<open>s.includes(t)\<close>: \<open>t\<close> occurs in \<open>s\<close> as a contiguous run of characters.\<close>

fun str_includes :: "string \<Rightarrow> string \<Rightarrow> bool" where
  "str_includes [] t = (t = [])"
| "str_includes (c # cs) t = (prefix t (c # cs) \<or> str_includes cs t)"

text \<open>Truthiness, as \<^verbatim>\<open>||\<close> and \<^verbatim>\<open>if\<close> test it.\<close>

fun truthy :: "json \<Rightarrow> bool" where
  "truthy JNull = False"
| "truthy (JBool b) = b"
| "truthy (JNum t) = (t \<noteq> ''0'')"
| "truthy (JStr s) = (s \<noteq> [])"
| "truthy (JArr xs) = True"
| "truthy (JObj kvs) = True"

text \<open>
  Reading a property by name: \<open>None\<close> is \<^verbatim>\<open>undefined\<close>. Only an object has the
  properties the code reads (\<^verbatim>\<open>content\<close>, \<^verbatim>\<open>snippet\<close>, \<^verbatim>\<open>title\<close>, \<^verbatim>\<open>text\<close>); reading one of
  \<^verbatim>\<open>null\<close> throws.
\<close>

fun get_prop :: "json \<Rightarrow> string \<Rightarrow> exn + json option" where
  "get_prop JNull k =
     Inl (TypeError (''Cannot read properties of null (reading '' @ [CHR 0x27] @ k @ [CHR 0x27] @ '')''))"
| "get_prop (JObj kvs) k = Inr (map_of kvs k)"
| "get_prop v k = Inr None"

text \<open>\<^verbatim>\<open>a || b\<close> on values that may be \<^verbatim>\<open>undefined\<close>.\<close>

fun or_else :: "json option \<Rightarrow> json option \<Rightarrow> json option" where
  "or_else (Some a) b = (if truthy a then Some a else b)"
| "or_else None b = b"

text \<open>\<^verbatim>\<open>String(v)\<close>, and the text \<^verbatim>\<open>join\<close> gives an element (empty for \<^verbatim>\<open>null\<close> and \<^verbatim>\<open>undefined\<close>).\<close>

fun ToString :: "json \<Rightarrow> string" where
  "ToString JNull = ''null''"
| "ToString (JBool b) = (if b then ''true'' else ''false'')"
| "ToString (JNum t) = t"
| "ToString (JStr s) = s"
| "ToString (JArr xs) = join '','' (map (\<lambda>x. if x = JNull then [] else ToString x) xs)"
| "ToString (JObj kvs) = ''[object Object]''"

fun join_text :: "json option \<Rightarrow> string" where
  "join_text None = []"
| "join_text (Some v) = (if v = JNull then [] else ToString v)"

text \<open>
  The spread \<^verbatim>\<open>...v\<close> inside an array literal: an array gives its elements, a string its
  characters, and anything else is not iterable.
\<close>

fun spread :: "json \<Rightarrow> exn + json list" where
  "spread (JArr xs) = Inr xs"
| "spread (JStr s) = Inr (map (\<lambda>c. JStr [c]) s)"
| "spread v = Inl (TypeError ''results is not iterable'')"

section \<open>The workflow state\<close>

datatype role = System | Human | AI

type_synonym message = "role \<times> string"

record PersonalityState =
  personName :: string
  tweets :: "json list"
  otherContent :: "json list"
  dataSufficient :: bool
  searchAttempts :: int
  response :: string

record ConversationState = PersonalityState +
  conversationHistory :: "message list"
  currentQuery :: string
  personalityContext :: string

section \<open>The outside world\<close>

text \<open>
  What the program reads from outside: the clock (\<open>currentYear\<close> is
  \<^verbatim>\<open>new Date().getFullYear()\<close>, \<open>dateString\<close> the ISO date one year back that
  \<^verbatim>\<open>searchRecentTweets\<close> computes, \<open>timestamp\<close> the \<^verbatim>\<open>new Date()\<close> of a response event), the
  search provider and the language model. A provider answers the \<open>k\<close>-th call made to it,
  with a value or by throwing.
\<close>

record env =
  currentYear :: int
  dateString :: string
  timestamp :: string
  tavily :: "nat \<Rightarrow> string \<Rightarrow> exn + json"
  llm :: "nat \<Rightarrow> message list \<Rightarrow> exn + string"

text \<open>What the program has done to the outside: the calls it has made, in order.\<close>

record world =
  searchLog :: "string list"
  llmLog :: "message list list"

definition tavily_invoke :: "env \<Rightarrow> world \<Rightarrow> string \<Rightarrow> world \<times> (exn + json)" where
  "tavily_invoke E w query =
     (w\<lparr>searchLog := searchLog w @ [query]\<rparr>, tavily E (length (searchLog w)) query)"

definition llm_invoke :: "env \<Rightarrow> world \<Rightarrow> message list \<Rightarrow> world \<times> (exn + string)" where
  "llm_invoke E w messages =
     (w\<lparr>llmLog := llmLog w @ [messages]\<rparr>, llm E (length (llmLog w)) messages)"

section \<open>The workflow nodes\<close>

text \<open>
  The repository holds the workflow module twice. \<^verbatim>\<open>src/workflow.ts\<close> calls the provider
  bare; the other copy wraps each call in \<^verbatim>\<open>try\<close>/\<^verbatim>\<open>catch\<close>. The nodes of the first carry
  the suffix \<open>_src\<close>. A node returns a patch that the graph merges into the state; the
  model returns the merged state.
\<close>

definition searchRecentTweets ::
  "env \<Rightarrow> world \<times> 'a PersonalityState_scheme \<Rightarrow> world \<times> (exn + 'a PersonalityState_scheme)" where
  "searchRecentTweets E = (\<lambda>(w, state).
     let query = personName state @ '' tweets after:'' @ dateString E in
     case tavily_invoke E w query of
       (w', Inr results) \<Rightarrow>
         (w', Inr (state\<lparr>tweets := (case results of JArr xs \<Rightarrow> xs | _ \<Rightarrow> []),
                         searchAttempts := searchAttempts state + 1\<rparr>))
     | (w', Inl error) \<Rightarrow>
         (w', Inr (state\<lparr>tweets := [], searchAttempts := searchAttempts state + 1\<rparr>)))"

text \<open>
  \<^verbatim>\<open>searchRecentTweets\<close> of \<^verbatim>\<open>src/workflow.ts\<close> stores the provider's answer unchecked:
  its patch is \<^verbatim>\<open>{tweets: results, searchAttempts: state.searchAttempts + 1}\<close>, whatever
  \<^verbatim>\<open>results\<close> is. The field is declared \<^verbatim>\<open>any[]\<close> but the answer need not be an array, so
  this node is given by its patch, the pair of the two values.
\<close>

definition searchRecentTweets_src ::
  "env \<Rightarrow> world \<times> 'a PersonalityState_scheme \<Rightarrow> world \<times> (exn + json \<times> int)" where
  "searchRecentTweets_src E = (\<lambda>(w, state).
     let query = personName state @ '' tweets after:'' @ dateString E in
     case tavily_invoke E w query of
       (w', Inr results) \<Rightarrow> (w', Inr (results, searchAttempts state + 1))
     | (w', Inl error) \<Rightarrow> (w', Inl error))"

text \<open>
  The graph merges that patch by the reducer \<^verbatim>\<open>y ?? x\<close> of the channels: \<^verbatim>\<open>null\<close> and
  \<^verbatim>\<open>undefined\<close> keep the old tweets, any other value replaces them. An array is stored
  as it is. The empty string is \<^verbatim>\<open>[]\<close> to every reader of the field
  (\<^verbatim>\<open>state.tweets || []\<close>, the spread, \<^verbatim>\<open>length\<close>) and is stored as \<open>[]\<close>. No other value
  is a state of the declared type, and the run that holds one ends with a \<^verbatim>\<open>TypeError\<close>
  when a node reads it: a truthy value in the evaluate node, which comes next and calls
  \<^verbatim>\<open>tweets.some\<close>; \<^verbatim>\<open>0\<close> and \<^verbatim>\<open>false\<close> in the generate node, which spreads them. The
  merge raises that error at once; for \<^verbatim>\<open>0\<close> and \<^verbatim>\<open>false\<close> this leaves out the follow-up
  searches such a run makes before it fails.
\<close>

definition merge_tweets ::
  "json \<times> int \<Rightarrow> 'a PersonalityState_scheme \<Rightarrow> exn + 'a PersonalityState_scheme" where
  "merge_tweets = (\<lambda>(results, attempts) state.
     case results of
       JArr xs \<Rightarrow> Inr (state\<lparr>tweets := xs, searchAttempts := attempts\<rparr>)
     | JNull \<Rightarrow> Inr (state\<lparr>searchAttempts := attempts\<rparr>)
     | _ \<Rightarrow>
         if results = JStr [] then Inr (state\<lparr>tweets := [], searchAttempts := attempts\<rparr>)
         else if truthy results then Inl (TypeError ''tweets.some is not a function'')
         else Inl (TypeError ''state.tweets is not iterable''))"

definition hasRecent :: "int \<Rightarrow> json list \<Rightarrow> bool" where
  "hasRecent year ts =
     list_ex (\<lambda>t. let tweetStr = JSON_stringify t in
                str_includes tweetStr (String_of_number year) \<or>
                str_includes tweetStr (String_of_number (year - 1))) ts"

text \<open>
  Both copies of \<^verbatim>\<open>evaluateData\<close> compute the same; one guards the two arrays with
  \<^verbatim>\<open>Array.isArray\<close>, the other with \<^verbatim>\<open>|| []\<close>, and both guards are the identity on a list.
  The first argument is the year the clock gives.
\<close>

definition evaluateData :: "int \<Rightarrow> 'a PersonalityState_scheme \<Rightarrow> 'a PersonalityState_scheme" where
  "evaluateData year state =
     (let totalContent = length (tweets state) + length (otherContent state);
          sufficient = (totalContent \<ge> 15 \<and> hasRecent year (tweets state))
      in state\<lparr>dataSufficient := sufficient\<rparr>)"

definition additional_query :: "'a PersonalityState_scheme \<Rightarrow> string" where
  "additional_query state =
     (if searchAttempts state = 1 then personName state @ '' interview podcast 2024''
      else if searchAttempts state = 2 then personName state @ '' speech quotes recent''
      else personName state @ '' opinions views'')"

definition searchAdditionalSources ::
  "env \<Rightarrow> world \<times> 'a PersonalityState_scheme \<Rightarrow> world \<times> (exn + 'a PersonalityState_scheme)" where
  "searchAdditionalSources E = (\<lambda>(w, state).
     let query = additional_query state in
     case tavily_invoke E w query of
       (w', Inr results) \<Rightarrow>
         (case spread results of
            Inr rs \<Rightarrow>
              (w', Inr (state\<lparr>otherContent := otherContent state @ rs,
                              searchAttempts := searchAttempts state + 1\<rparr>))
          | Inl error \<Rightarrow>
              (w', Inr (state\<lparr>searchAttempts := searchAttempts state + 1\<rparr>)))
     | (w', Inl error) \<Rightarrow>
         (w', Inr (state\<lparr>searchAttempts := searchAttempts state + 1\<rparr>)))"

definition searchAdditionalSources_src ::
  "env \<Rightarrow> world \<times> 'a PersonalityState_scheme \<Rightarrow> world \<times> (exn + 'a PersonalityState_scheme)" where
  "searchAdditionalSources_src E = (\<lambda>(w, state).
     let query = additional_query state in
     case tavily_invoke E w query of
       (w', Inr results) \<Rightarrow>
         (case spread results of
            Inr rs \<Rightarrow>
              (w', Inr (state\<lparr>otherContent := otherContent state @ rs,
                              searchAttempts := searchAttempts state + 1\<rparr>))
          | Inl error \<Rightarrow> (w', Inl error))
     | (w', Inl error) \<Rightarrow> (w', Inl error))"

definition shouldSearchMore :: "'a PersonalityState_scheme \<Rightarrow> string" where
  "shouldSearchMore state =
     (if dataSufficient state then ''generate''
      else if searchAttempts state < 4 then ''searchMore''
      else ''generate'')"

text \<open>
  The generate node of \<^verbatim>\<open>conversation.ts\<close>. The context is the text of the first 15
  items, \<^verbatim>\<open>c.content || c.snippet || c.text\<close> each; the model call is bare, so what it
  throws leaves the node.
\<close>

fun map_throwing :: "('a \<Rightarrow> exn + 'b) \<Rightarrow> 'a list \<Rightarrow> exn + 'b list" where
  "map_throwing f [] = Inr []"
| "map_throwing f (x # xs) =
     (case f x of
        Inl e \<Rightarrow> Inl e
      | Inr y \<Rightarrow> (case map_throwing f xs of Inl e \<Rightarrow> Inl e | Inr ys \<Rightarrow> Inr (y # ys)))"

definition item_context :: "json \<Rightarrow> exn + json option" where
  "item_context c =
     (case get_prop c ''content'' of
        Inl e \<Rightarrow> Inl e
      | Inr content \<Rightarrow>
          (case get_prop c ''snippet'' of
             Inl e \<Rightarrow> Inl e
           | Inr snippet \<Rightarrow>
               (case get_prop c ''text'' of
                  Inl e \<Rightarrow> Inl e
                | Inr text \<Rightarrow> Inr (or_else content (or_else snippet text)))))"

definition nl :: string where
  "nl = [CHR 0x0A]"

definition system_prompt :: "string \<Rightarrow> string \<Rightarrow> string" where
  "system_prompt name context =
     ''You are mimicking the speaking style and personality of '' @ name @ ''. '' @ nl @
     ''     '' @ nl @
     ''     Based on these examples of their speech and tweets:'' @ nl @
     ''     '' @ context @ nl @
     ''     '' @ nl @
     ''     Important guidelines:'' @ nl @
     ''     - Match their vocabulary, tone, and speaking patterns'' @ nl @
     ''     - Use similar phrases and expressions they commonly use'' @ nl @
     ''     - Maintain their perspective on topics'' @ nl @
     ''     - Keep their energy level and communication style'' @ nl @
     ''     - If they use specific catchphrases or signatures, include them naturally'' @ nl @
     ''     '' @ nl @
     ''     Stay in character throughout the conversation.''"

definition generateConversationalResponse ::
  "env \<Rightarrow> world \<times> ConversationState \<Rightarrow> world \<times> (exn + ConversationState)" where
  "generateConversationalResponse E = (\<lambda>(w, state).
     let allContent = tweets state @ otherContent state in
     case map_throwing item_context (take 15 allContent) of
       Inl e \<Rightarrow> (w, Inl e)
     | Inr texts \<Rightarrow>
         (let context = join (nl @ nl) (map join_text texts);
              systemMessage = (System, system_prompt (personName state) context);
              messages = [systemMessage] @ conversationHistory state @ [(Human, currentQuery state)]
          in (case llm_invoke E w messages of
                (w', Inl e) \<Rightarrow> (w', Inl e)
              | (w', Inr aiResponse) \<Rightarrow>
                  (w', Inr (state\<lparr>response := aiResponse,
                                  conversationHistory :=
                                    conversationHistory state @
                                      [(Human, currentQuery state), (AI, aiResponse)],
                                  personalityContext := context\<rparr>)))))"

text \<open>
  The generate node of the guarded workflow copy: no history, a summary of the first 10
  items, and a fallback reply when the model call throws.
\<close>

definition item_summary :: "json \<Rightarrow> exn + json" where
  "item_summary item =
     (case get_prop item ''content'' of
        Inl e \<Rightarrow> Inl e
      | Inr content \<Rightarrow>
          (case get_prop item ''snippet'' of
             Inl e \<Rightarrow> Inl e
           | Inr snippet \<Rightarrow>
               (case get_prop item ''title'' of
                  Inl e \<Rightarrow> Inl e
                | Inr title \<Rightarrow>
                    (case or_else content (or_else snippet title) of
                       Some v \<Rightarrow> Inr (if truthy v then v else JStr (JSON_stringify item))
                     | None \<Rightarrow> Inr (JStr (JSON_stringify item))))))"

definition response_prompt :: "string \<Rightarrow> string \<Rightarrow> string \<Rightarrow> string" where
  "response_prompt name contentSummary query =
     ''You are '' @ name @
     ''. Based on the following content about you, respond in your authentic voice and style:'' @
     nl @ nl @ contentSummary @ nl @ nl @
     ''User asks: '' @ [CHR 0x22] @ query @ [CHR 0x22] @ nl @ nl @
     ''Respond as '' @ name @
     '' would, using your typical communication style, vocabulary, and personality traits. Be conversational and engaging.''"

definition fallback_response :: "string \<Rightarrow> string" where
  "fallback_response name =
     ''I'' @ [CHR 0x27] @ ''m sor'' @ ''ry, I'' @ [CHR 0x27] @
     ''m having trouble generating a response right now. This is '' @ name @ '' speaking.''"

definition generateResponse ::
  "env \<Rightarrow> world \<times> 'a PersonalityState_scheme \<Rightarrow> string option \<Rightarrow>
     world \<times> (exn + 'a PersonalityState_scheme)" where
  "generateResponse E = (\<lambda>(w, state) currentQuery'.
     let allContent = tweets state @ otherContent state in
     case map_throwing item_summary (take 10 allContent) of
       Inl e \<Rightarrow> (w, Inl e)
     | Inr items \<Rightarrow>
         (let contentSummary = join (nl @ nl) (map (\<lambda>v. join_text (Some v)) items);
              query = (case currentQuery' of
                         Some q \<Rightarrow> if q = [] then ''Tell me about yourself'' else q
                       | None \<Rightarrow> ''Tell me about yourself'');
              prompt = response_prompt (personName state) contentSummary query
          in (case llm_invoke E w [(Human, prompt)] of
                (w', Inr content) \<Rightarrow> (w', Inr (state\<lparr>response := content\<rparr>))
              | (w', Inl error) \<Rightarrow>
                  (w', Inr (state\<lparr>response := fallback_response (personName state)\<rparr>)))))"

section \<open>The graph of the Voiceboard\<close>

text \<open>
  The calls of \<^verbatim>\<open>buildWorkflow\<close> declare a graph of four nodes, the first three from the
  workflow module and the fourth from \<^verbatim>\<open>conversation.ts\<close>, with the edges searchTweets
  \<open>\<rightarrow>\<close> evaluate, searchMore \<open>\<rightarrow>\<close> evaluate and the conditional edge of
  \<^verbatim>\<open>shouldSearchMore\<close> out of evaluate; generate has no edge out and ends the run. This
  section says what \<^verbatim>\<open>invoke\<close> on that graph does, with \<^verbatim>\<open>shouldSearchMore\<close> read as the
  function both workflow copies define alike. It is the graph the methods below mean by
  \<^verbatim>\<open>this.app\<close>. As the file stands the graph is never built: \<^verbatim>\<open>voiceboard.ts\<close> does not
  import that name, and the next section gives what the constructor does for it.
\<close>

datatype workflow_file = Workflow_src | Workflow_guarded

datatype node = SearchTweets | Evaluate | SearchMore | Generate

fun exec_node ::
  "workflow_file \<Rightarrow> env \<Rightarrow> node \<Rightarrow> world \<times> ConversationState \<Rightarrow>
     world \<times> (exn + ConversationState)" where
  "exec_node Workflow_src E SearchTweets (w, s) =
     (case searchRecentTweets_src E (w, s) of
        (w', Inl e) \<Rightarrow> (w', Inl e)
      | (w', Inr patch) \<Rightarrow> (w', merge_tweets patch s))"
| "exec_node Workflow_guarded E SearchTweets (w, s) = searchRecentTweets E (w, s)"
| "exec_node ver E Evaluate (w, s) = (w, Inr (evaluateData (currentYear E) s))"
| "exec_node Workflow_src E SearchMore (w, s) = searchAdditionalSources_src E (w, s)"
| "exec_node Workflow_guarded E SearchMore (w, s) = searchAdditionalSources E (w, s)"
| "exec_node ver E Generate (w, s) = generateConversationalResponse E (w, s)"

fun next_node :: "node \<Rightarrow> ConversationState \<Rightarrow> node option" where
  "next_node SearchTweets s = Some Evaluate"
| "next_node Evaluate s =
     (if shouldSearchMore s = ''searchMore'' then Some SearchMore
      else if shouldSearchMore s = ''generate'' then Some Generate
      else None)"
| "next_node SearchMore s = Some Evaluate"
| "next_node Generate s = None"

text \<open>
  A run from a node: the nodes entered, each with the state it was entered in, the
  world after the run, and the final state or what was thrown. The rank of a node and
  state goes down along every edge of the graph, so every run ends: the attempt count
  goes up in each search node and evaluate leaves for generate once it is 4.
\<close>

fun rank :: "node \<Rightarrow> ConversationState \<Rightarrow> nat" where
  "rank SearchTweets s = 2 * nat (3 - searchAttempts s) + 2"
| "rank Evaluate s = 2 * nat (4 - searchAttempts s) + 1"
| "rank SearchMore s = 2 * nat (3 - searchAttempts s) + 2"
| "rank Generate s = 0"

function invoke_from ::
  "workflow_file \<Rightarrow> env \<Rightarrow> node \<Rightarrow> world \<times> ConversationState \<Rightarrow>
     (node \<times> ConversationState) list \<times> world \<times> (exn + ConversationState)" where
  "invoke_from ver E n (w, s) =
     (case exec_node ver E n (w, s) of
        (w', Inl e) \<Rightarrow> ([(n, s)], w', Inl e)
      | (w', Inr s') \<Rightarrow>
          (case next_node n s' of
             None \<Rightarrow> ([(n, s)], w', Inr s')
           | Some n' \<Rightarrow>
               (case invoke_from ver E n' (w', s') of
                  (tr, r) \<Rightarrow> ((n, s) # tr, r))))"
  by pat_completeness auto
termination
proof (relation "measure (\<lambda>(ver, E, n, (w, s)). rank n s)")
  show "wf (measure (\<lambda>(ver, E, n, (w, s)). rank n s))"
    by simp
next
  fix ver :: workflow_file and E :: env and n :: node and w :: world
    and s :: ConversationState and w' :: world and r :: "exn + ConversationState"
    and s' :: ConversationState and n' :: node
  assume ex: "(w', r) = exec_node ver E n (w, s)" and r: "r = Inr s'"
    and nx: "next_node n s' = Some n'"
  have "rank n' s' < rank n s"
  proof (cases n)
    case SearchTweets
    with ex r nx show ?thesis
      by (cases ver)
        (auto simp: searchRecentTweets_def searchRecentTweets_src_def merge_tweets_def
          tavily_invoke_def Let_def split: sum.splits json.splits if_splits)
  next
    case Evaluate
    with ex r nx show ?thesis
      by (auto simp: evaluateData_def shouldSearchMore_def Let_def split: if_splits)
  next
    case SearchMore
    with ex r nx show ?thesis
      by (cases ver)
        (auto simp: searchAdditionalSources_def searchAdditionalSources_src_def
          tavily_invoke_def Let_def split: sum.splits)
  next
    case Generate
    with nx show ?thesis by simp
  qed
  then show "((ver, E, n', w', s'), ver, E, n, w, s) \<in> measure (\<lambda>(ver, E, n, (w, s)). rank n s)"
    by simp
qed

declare invoke_from.simps [simp del]

definition app_invoke ::
  "workflow_file \<Rightarrow> env \<Rightarrow> world \<times> ConversationState \<Rightarrow>
     (node \<times> ConversationState) list \<times> world \<times> (exn + ConversationState)" where
  "app_invoke ver E c = invoke_from ver E SearchTweets c"

text \<open>The graph \<^verbatim>\<open>chat\<close> builds has the generate node alone.\<close>

definition chatApp_invoke ::
  "env \<Rightarrow> world \<times> ConversationState \<Rightarrow> world \<times> (exn + ConversationState)" where
  "chatApp_invoke E c = generateConversationalResponse E c"

section \<open>The Voiceboard class\<close>

text \<open>
  The object's fields; \<^verbatim>\<open>this.app\<close> is \<^const>\<open>app_invoke\<close> at the workflow module the file
  is linked with. A method takes the world and the object and returns both as the
  call leaves them, with what it returned or threw: what a method did before it threw
  stays done.
\<close>

record Voiceboard =
  vb_personName :: string
  state :: ConversationState
  initialized :: bool

text \<open>The fields as the constructor assigns them, before it calls \<^verbatim>\<open>buildWorkflow\<close>.\<close>

definition Voiceboard_fields :: "string \<Rightarrow> Voiceboard" where
  "Voiceboard_fields name =
     \<lparr>vb_personName = name,
      state = \<lparr>personName = name, tweets = [], otherContent = [], dataSufficient = False,
               searchAttempts = 0, response = [], conversationHistory = [],
               currentQuery = [], personalityContext = []\<rparr>,
      initialized = False\<rparr>"






definition initialize ::
  "workflow_file \<Rightarrow> env \<Rightarrow> world \<times> Voiceboard \<Rightarrow> (world \<times> Voiceboard) \<times> (exn + unit)" where
  "initialize ver E = (\<lambda>(w, vb).
     if \<not> initialized vb then
       (case app_invoke ver E (w, state vb) of
          (tr, w', Inl e) \<Rightarrow> ((w', vb), Inl e)
        | (tr, w', Inr s') \<Rightarrow> ((w', vb\<lparr>state := s', initialized := True\<rparr>), Inr ()))
     else ((w, vb), Inr ()))"

definition chat ::
  "workflow_file \<Rightarrow> env \<Rightarrow> world \<times> Voiceboard \<Rightarrow> string \<Rightarrow>
     (world \<times> Voiceboard) \<times> (exn + string)" where
  "chat ver E = (\<lambda>(w, vb) message.
     case (if \<not> initialized vb then initialize ver E (w, vb) else ((w, vb), Inr ())) of
       ((w1, vb1), Inl e) \<Rightarrow> ((w1, vb1), Inl e)
     | ((w1, vb1), Inr u) \<Rightarrow>
         (let vb2 = vb1\<lparr>state := (state vb1)\<lparr>currentQuery := message\<rparr>\<rparr> in
          case chatApp_invoke E (w1, state vb2) of
            (w2, Inl e) \<Rightarrow> ((w2, vb2), Inl e)
          | (w2, Inr s') \<Rightarrow> ((w2, vb2\<lparr>state := s'\<rparr>), Inr (response s'))))"

definition getHistory :: "Voiceboard \<Rightarrow> message list" where
  "getHistory vb = conversationHistory (state vb)"

definition clearConversation :: "Voiceboard \<Rightarrow> Voiceboard" where
  "clearConversation vb = vb\<lparr>state := (state vb)\<lparr>conversationHistory := []\<rparr>\<rparr>"

definition refreshPersonality ::
  "workflow_file \<Rightarrow> env \<Rightarrow> world \<times> Voiceboard \<Rightarrow> (world \<times> Voiceboard) \<times> (exn + unit)" where
  "refreshPersonality ver E = (\<lambda>(w, vb).
     initialize ver E
       (w, vb\<lparr>initialized := False,
              state := (state vb)\<lparr>tweets := [], otherContent := [], searchAttempts := 0\<rparr>\<rparr>))"

text \<open>A client's calls of \<^verbatim>\<open>chat\<close> one after the other, whatever each returns or throws.\<close>

fun chats ::
  "workflow_file \<Rightarrow> env \<Rightarrow> world \<times> Voiceboard \<Rightarrow> string list \<Rightarrow> world \<times> Voiceboard" where
  "chats ver E c [] = c"
| "chats ver E c (m # ms) = chats ver E (fst (chat ver E c m)) ms"

section \<open>The server\<close>

text \<open>
  The registry is the process-wide \<^verbatim>\<open>Map\<close> from a session id (a REST client's
  \<^verbatim>\<open>sessionId\<close>, a socket's id) to its Voiceboard. A request field that may be missing is
  an option; \<^verbatim>\<open>!field\<close> holds of a missing and of an empty one.
\<close>

record server =
  voiceboards :: "string \<rightharpoonup> Voiceboard"
  socket_personName :: "string \<rightharpoonup> string"

datatype http_response = HttpResponse nat "(string \<times> json) list"


datatype event =
    Status string
  | VoiceboardReady string
  | ResponseMsg string string
  | Typing bool
  | ErrorMsg string
  | ConversationCleared

definition message_or :: "exn \<Rightarrow> string \<Rightarrow> string" where
  "message_or e fallback = (if instanceof_Error e then error_message e else fallback)"



text \<open>\<^verbatim>\<open>DELETE /api/voiceboard/:sessionId\<close>.\<close>

definition delete_voiceboard :: "server \<Rightarrow> string \<Rightarrow> server \<times> http_response" where
  "delete_voiceboard srv sessionId =
     (case voiceboards srv sessionId of
        Some voiceboard \<Rightarrow>
          (srv\<lparr>voiceboards := (voiceboards srv)(sessionId := None)\<rparr>,
           HttpResponse 200
             [(''success'', JBool True), (''message'', JStr ''Voiceboard deleted successfully'')])
      | None \<Rightarrow> (srv, HttpResponse 404 [(''error'', JStr ''Voiceboard not found'')]))"


definition on_chat ::
  "workflow_file \<Rightarrow> env \<Rightarrow> world \<times> server \<Rightarrow> string \<Rightarrow> string option \<Rightarrow>
     (world \<times> server) \<times> event list" where
  "on_chat ver E = (\<lambda>(w, srv) socket_id message'.
     case message' of
       None \<Rightarrow> ((w, srv), [ErrorMsg ''Message cannot be empty''])
     | Some message \<Rightarrow>
         if message = [] then ((w, srv), [ErrorMsg ''Message cannot be empty''])
         else
           (case voiceboards srv socket_id of
              None \<Rightarrow> ((w, srv), [ErrorMsg ''Please create a voiceboard first''])
            | Some voiceboard \<Rightarrow>
                (case chat ver E (w, voiceboard) message of
                   ((w', vb'), Inr reply) \<Rightarrow>
                     ((w', srv\<lparr>voiceboards := (voiceboards srv)(socket_id \<mapsto> vb')\<rparr>),
                      [Typing True, ResponseMsg reply (timestamp E), Typing False])
                 | ((w', vb'), Inl e) \<Rightarrow>
                     ((w', srv\<lparr>voiceboards := (voiceboards srv)(socket_id \<mapsto> vb')\<rparr>),
                      [Typing True, ErrorMsg (message_or e ''Failed to process message''),
                       Typing False]))))"

definition on_clear_conversation :: "server \<Rightarrow> string \<Rightarrow> server \<times> event list" where
  "on_clear_conversation srv socket_id =
     (case voiceboards srv socket_id of
        Some voiceboard \<Rightarrow>
          (srv\<lparr>voiceboards := (voiceboards srv)(socket_id \<mapsto> clearConversation voiceboard)\<rparr>,
           [ConversationCleared])
      | None \<Rightarrow> (srv, [ErrorMsg ''No active voiceboard found'']))"

definition on_disconnect :: "server \<Rightarrow> string \<Rightarrow> server" where
  "on_disconnect srv socket_id = srv\<lparr>voiceboards := (voiceboards srv)(socket_id := None)\<rparr>"

text \<open>
  Whether every \<^verbatim>\<open>typing(true)\<close> of an event sequence has a \<^verbatim>\<open>typing(false)\<close> after it.
\<close>

fun typing_closed :: "event list \<Rightarrow> bool" where
  "typing_closed [] = True"
| "typing_closed (e # es) =
     ((if e = Typing True then Typing False \<in> set es else True) \<and> typing_closed es)"

section \<open>The rule of the specification for sufficiency\<close>

text \<open>
  The specification's words for the Sufficiency Evaluator: at least 15 snippets, tweets
  and other content counted together, and at least one snippet, of either kind, that
  mentions the current or the previous year. A snippet mentions a year the way the code
  tests it: the year's digits occur in the snippet's JSON text.
\<close>

definition mentions_year :: "int \<Rightarrow> json \<Rightarrow> bool" where
  "mentions_year year x =
     (str_includes (JSON_stringify x) (String_of_number year) \<or>
      str_includes (JSON_stringify x) (String_of_number (year - 1)))"

definition spec_sufficient :: "int \<Rightarrow> 'a PersonalityState_scheme \<Rightarrow> bool" where
  "spec_sufficient year s =
     (length (tweets s @ otherContent s) \<ge> 15 \<and>
      list_ex (mentions_year year) (tweets s @ otherContent s))"

section \<open>Counting the runs of the workflow\<close>

text \<open>
  Every run of the Voiceboard's graph starts in \<^verbatim>\<open>searchRecentTweets\<close>, which sends the one
  query of this form; the follow-up queries have other forms. The number of such
  queries in the log is the number of runs started for the persona.
\<close>

definition initial_query :: "env \<Rightarrow> string \<Rightarrow> string" where
  "initial_query E name = name @ '' tweets after:'' @ dateString E"

definition workflow_runs :: "env \<Rightarrow> string \<Rightarrow> world \<Rightarrow> nat" where
  "workflow_runs E name w = length (filter (\<lambda>q. q = initial_query E name) (searchLog w))"

section \<open>Sample inputs\<close>

text \<open>
  Concrete snippets, states and environments at which the theorems below are
  instantiated: a snippet that names 2026 and one that names no year, a state around
  given snippet lists, the world before any call, the empty registry, and
  environments whose providers answer, or throw.
\<close>

definition snippet_2026 :: json where
  "snippet_2026 = JObj [(''content'', JStr ''In 2026'')]"

definition snippet_plain :: json where
  "snippet_plain = JObj [(''content'', JStr ''hi'')]"

definition state_with :: "json list \<Rightarrow> json list \<Rightarrow> PersonalityState" where
  "state_with ts os = \<lparr>personName = ''Ada'', tweets = ts, otherContent = os,
     dataSufficient = False, searchAttempts = 1, response = []\<rparr>"

definition w0 :: world where
  "w0 = \<lparr>searchLog = [], llmLog = []\<rparr>"

definition srv0 :: server where
  "srv0 = \<lparr>voiceboards = Map.empty, socket_personName = Map.empty\<rparr>"

definition E_ok :: env where
  "E_ok = \<lparr>currentYear = 2026, dateString = ''2025-11-02'', timestamp = ''2026-11-02T12:00:00.000Z'',
           tavily = (\<lambda>k query. Inr (JArr [])), llm = (\<lambda>k messages. Inr ''ok'')\<rparr>"

definition E_search_down :: env where
  "E_search_down = E_ok\<lparr>tavily := (\<lambda>k query. Inl (Error ''search down''))\<rparr>"

definition E_llm_down :: env where
  "E_llm_down = E_ok\<lparr>llm := (\<lambda>k messages. Inl (Error ''model down''))\<rparr>"

definition E_flaky :: env where
  "E_flaky = E_ok\<lparr>llm := (\<lambda>k messages. if k = 0 then Inl (Error ''model down'') else Inr ''ok'')\<rparr>"

text \<open>
  A fresh persona state with a given attempt count; the state, the queries, the trace
  and the world of an initialization in which every search returns no result and the
  model answers \<open>ok\<close>; and the Voiceboard that initialization leaves.
\<close>

definition person_state :: "string \<Rightarrow> int \<Rightarrow> ConversationState" where
  "person_state name a =
     \<lparr>personName = name, tweets = [], otherContent = [], dataSufficient = False,
      searchAttempts = a, response = [], conversationHistory = [], currentQuery = [],
      personalityContext = []\<rparr>"

definition person_ready :: "string \<Rightarrow> ConversationState" where
  "person_ready name = (person_state name 4)\<lparr>response := ''ok'',
     conversationHistory := [(Human, []), (AI, ''ok'')]\<rparr>"

definition person_queries :: "string \<Rightarrow> string list" where
  "person_queries name = [name @ '' tweets after:2025-11-02'', name @ '' interview podcast 2024'',
     name @ '' speech quotes recent'', name @ '' opinions views'']"

definition forced_path :: "node list" where
  "forced_path = [SearchTweets, Evaluate, SearchMore, Evaluate, SearchMore, Evaluate,
     SearchMore, Evaluate, Generate]"

definition person_trace :: "string \<Rightarrow> (node \<times> ConversationState) list" where
  "person_trace name = zip forced_path (map (person_state name) [0, 1, 1, 2, 2, 3, 3, 4, 4])"

definition greeting_messages :: "string \<Rightarrow> message list" where
  "greeting_messages name = [(System, system_prompt name []), (Human, [])]"

definition vb_ready :: "string \<Rightarrow> Voiceboard" where
  "vb_ready name = \<lparr>vb_personName = name, state = person_ready name, initialized = True\<rparr>"

definition srv_with :: "string \<Rightarrow> Voiceboard \<Rightarrow> server" where
  "srv_with sessionId vb = srv0\<lparr>voiceboards := [sessionId \<mapsto> vb]\<rparr>"

definition world_after :: "string \<Rightarrow> world" where
  "world_after name = \<lparr>searchLog = person_queries name, llmLog = [greeting_messages name]\<rparr>"

section \<open>Unfolding the samples\<close>

lemmas sample_defs = E_ok_def w0_def person_state_def person_ready_def person_queries_def
  person_trace_def forced_path_def greeting_messages_def world_after_def vb_ready_def

lemmas node_defs = searchRecentTweets_def searchRecentTweets_src_def merge_tweets_def
  searchAdditionalSources_def
  searchAdditionalSources_src_def tavily_invoke_def llm_invoke_def evaluateData_def hasRecent_def
  shouldSearchMore_def additional_query_def generateConversationalResponse_def Let_def

lemmas failing_defs = E_search_down_def E_llm_down_def E_flaky_def srv_with_def srv0_def

section \<open>The Sufficiency Evaluator\<close>

lemma str_includes_sublist: "str_includes s t \<longleftrightarrow> sublist t s"
  by (induction s) (auto simp: sublist_Cons_right)

lemma hasRecent_mentions: "hasRecent year ts = list_ex (mentions_year year) ts"
  by (simp add: hasRecent_def mentions_year_def Let_def list_ex_iff)

lemma hasRecent_replicate: "hasRecent year (replicate n x) \<longleftrightarrow> 0 < n \<and> mentions_year year x"
  by (auto simp: hasRecent_mentions list_ex_iff)

lemma mentions_year_sublist:
  "mentions_year year x \<longleftrightarrow>
     sublist (String_of_number year) (JSON_stringify x) \<or>
     sublist (String_of_number (year - 1)) (JSON_stringify x)"
  by (simp add: mentions_year_def str_includes_sublist)

lemma String_of_sample_years:
  "String_of_number 2026 = ''2026''" "String_of_number 2025 = ''2025''"
  "String_of_number 2028 = ''2028''" "String_of_number 2027 = ''2027''"
  by (simp_all add: String_of_number_def digits.simps)

lemma snippet_2026_mentions: "mentions_year 2026 snippet_2026"
  by (simp add: mentions_year_def snippet_2026_def QuoteJSONString_def quote_char_def
      String_of_sample_years)

lemma snippet_2026_old_in_2028: "\<not> mentions_year 2028 snippet_2026"
  by (simp add: mentions_year_def snippet_2026_def QuoteJSONString_def quote_char_def
      String_of_sample_years)

lemma snippet_plain_silent: "\<not> mentions_year 2026 snippet_plain"
  by (simp add: mentions_year_def snippet_plain_def QuoteJSONString_def quote_char_def
      String_of_sample_years)

lemma evaluateData_fields [simp]:
  "searchAttempts (evaluateData year s) = searchAttempts s"
  "tweets (evaluateData year s) = tweets s"
  "otherContent (evaluateData year s) = otherContent s"
  "personName (evaluateData year s) = personName s"
  "response (evaluateData year s) = response s"
  by (simp_all add: evaluateData_def Let_def)

lemma evaluateData_conversation [simp]:
  "conversationHistory (evaluateData year c) = conversationHistory c"
  "currentQuery (evaluateData year c) = currentQuery c"
  "personalityContext (evaluateData year c) = personalityContext c"
  by (simp_all add: evaluateData_def Let_def)

text \<open>
  C1, as the code has it. The evaluator answers true exactly when tweets and other
  content together number at least 15 and some element of \<^emph>\<open>tweets\<close> has a JSON text in
  which the decimal current or previous year occurs as a run of characters; the other
  content is counted and not read. So 15 snippets with no such tweet give false, and so
  do 14 snippets with one.
\<close>

theorem evaluateData_decision:
  "(dataSufficient (evaluateData year s) \<longleftrightarrow>
      length (tweets s) + length (otherContent s) \<ge> 15 \<and>
      (\<exists>t \<in> set (tweets s). sublist (String_of_number year) (JSON_stringify t) \<or>
                             sublist (String_of_number (year - 1)) (JSON_stringify t)))
   \<and> (length (tweets s) + length (otherContent s) = 15 \<and> \<not> hasRecent year (tweets s)
        \<longrightarrow> \<not> dataSufficient (evaluateData year s))
   \<and> (length (tweets s) + length (otherContent s) = 14 \<and> hasRecent year (tweets s)
        \<longrightarrow> \<not> dataSufficient (evaluateData year s))"
  by (simp add: evaluateData_def Let_def hasRecent_mentions list_ex_iff mentions_year_sublist)

text \<open>
  In 2026: 15 tweets that name 2026 suffice; 15 that name no year do not; 14 that name
  2026 do not.
\<close>

theorem evaluateData_decision_witness:
  "dataSufficient (evaluateData 2026 (state_with (replicate 15 snippet_2026) []))
   \<and> \<not> hasRecent 2026 (replicate 15 snippet_plain)
   \<and> \<not> dataSufficient (evaluateData 2026 (state_with (replicate 15 snippet_plain) []))
   \<and> hasRecent 2026 (replicate 14 snippet_2026)
   \<and> \<not> dataSufficient (evaluateData 2026 (state_with (replicate 14 snippet_2026) []))"
  using evaluateData_decision [of 2026 "state_with (replicate 15 snippet_2026) []"]
    evaluateData_decision [of 2026 "state_with (replicate 15 snippet_plain) []"]
    evaluateData_decision [of 2026 "state_with (replicate 14 snippet_2026) []"]
    snippet_2026_mentions snippet_plain_silent
  by (simp add: state_with_def hasRecent_replicate mentions_year_sublist)

text \<open>
  C1 as the specification words it fails: with no tweet and 15 items of other content
  that all name 2026, the specification's rule holds and the evaluator answers false.
\<close>

theorem evaluateData_other_content_counterexample:
  "\<not> (\<forall>year (s :: PersonalityState). dataSufficient (evaluateData year s) = spec_sufficient year s)"
proof
  assume h: "\<forall>year (s :: PersonalityState).
    dataSufficient (evaluateData year s) = spec_sufficient year s"
  have a: "\<not> dataSufficient (evaluateData 2026 (state_with [] (replicate 15 snippet_2026)))"
    by (simp add: evaluateData_def state_with_def hasRecent_def)
  have b: "spec_sufficient 2026 (state_with [] (replicate 15 snippet_2026))"
    using snippet_2026_mentions by (simp add: spec_sufficient_def state_with_def list_ex_iff)
  from h a b show False by blast
qed

text \<open>
  C8, as the code has it. The decision is a function of the snippets and of the year
  the clock gives: two states with the same tweets and other content get the same
  decision in the same year. The evaluator changes the field \<open>dataSufficient\<close> and
  nothing else, and its node leaves the world as it was.
\<close>

theorem evaluateData_deterministic:
  assumes "tweets s = tweets s'" and "otherContent s = otherContent s'"
  shows "dataSufficient (evaluateData year s) = dataSufficient (evaluateData year s')
    \<and> evaluateData year s = s\<lparr>dataSufficient := dataSufficient (evaluateData year s)\<rparr>
    \<and> exec_node ver E Evaluate (w, c) = (w, Inr (evaluateData (currentYear E) c))"
  using assms by (simp add: evaluateData_def Let_def)

text \<open>
  Two states with the same 15 tweets and different persona names, both in 2026: both
  decisions are true.
\<close>

theorem evaluateData_deterministic_witness:
  "tweets (state_with (replicate 15 snippet_2026) []) =
     tweets ((state_with (replicate 15 snippet_2026) [])\<lparr>personName := ''Bob''\<rparr>)
   \<and> dataSufficient (evaluateData 2026 (state_with (replicate 15 snippet_2026) []))
   \<and> dataSufficient (evaluateData 2026
        ((state_with (replicate 15 snippet_2026) [])\<lparr>personName := ''Bob''\<rparr>))"
  using evaluateData_deterministic [of "state_with (replicate 15 snippet_2026) []"
      "(state_with (replicate 15 snippet_2026) [])\<lparr>personName := ''Bob''\<rparr>" 2026]
    snippet_2026_mentions
  by (simp add: state_with_def evaluateData_def hasRecent_replicate)

text \<open>
  C8 as stated fails: the same 15 tweets that name 2026 are sufficient when the clock
  says 2026 and insufficient when it says 2028.
\<close>

theorem evaluateData_clock_counterexample:
  "\<not> (\<forall>year year' (s :: PersonalityState) (s' :: PersonalityState).
        tweets s = tweets s' \<and> otherContent s = otherContent s' \<longrightarrow>
        dataSufficient (evaluateData year s) = dataSufficient (evaluateData year' s'))"
proof
  assume h: "\<forall>year year' (s :: PersonalityState) (s' :: PersonalityState).
        tweets s = tweets s' \<and> otherContent s = otherContent s' \<longrightarrow>
        dataSufficient (evaluateData year s) = dataSufficient (evaluateData year' s')"
  have a: "dataSufficient (evaluateData 2026 (state_with (replicate 15 snippet_2026) []))"
    using snippet_2026_mentions by (simp add: evaluateData_def state_with_def hasRecent_replicate)
  have b: "\<not> dataSufficient (evaluateData 2028 (state_with (replicate 15 snippet_2026) []))"
    using snippet_2026_old_in_2028
    by (simp add: evaluateData_def state_with_def hasRecent_replicate)
  from h a b show False by blast
qed

section \<open>Clearing the conversation\<close>

text \<open>
  C7. \<^verbatim>\<open>clearConversation\<close> empties the history; tweets, other content, the attempt
  count and every other field of the state and of the object are as before.
\<close>

theorem clearConversation_frame:
  "getHistory (clearConversation vb) = []
   \<and> tweets (state (clearConversation vb)) = tweets (state vb)
   \<and> otherContent (state (clearConversation vb)) = otherContent (state vb)
   \<and> searchAttempts (state (clearConversation vb)) = searchAttempts (state vb)
   \<and> (state (clearConversation vb))\<lparr>conversationHistory := conversationHistory (state vb)\<rparr>
       = state vb
   \<and> vb_personName (clearConversation vb) = vb_personName vb
   \<and> initialized (clearConversation vb) = initialized vb"
  by (simp add: clearConversation_def getHistory_def)

section \<open>The constructor\<close>





section \<open>The Session Registry\<close>





section \<open>Provider failures\<close>

lemma fallback_names_persona:
  "sublist name (fallback_response name)" and "fallback_response name \<noteq> []"
  by (simp_all add: fallback_response_def sublist_Cons_right)

lemma generateResponse_fallback:
  assumes "\<forall>messages. llm E (length (llmLog w)) messages = Inl e"
    and "map_throwing item_summary (take 10 (tweets s @ otherContent s)) = Inr items"
  shows "snd (generateResponse E (w, s) q) = Inr (s\<lparr>response := fallback_response (personName s)\<rparr>)"
  using assms
  by (auto simp: generateResponse_def llm_invoke_def Let_def split: sum.splits)

text \<open>
  C3 at the code: on an initialized Voiceboard, when the model call throws, \<^verbatim>\<open>chat\<close>
  throws too; the history and the last response stay as they were, so no fallback
  reply is returned and the user's turn is not recorded. (The generate node of the
  guarded workflow copy, \<^const>\<open>generateResponse\<close>, does return the fallback that names
  the persona; \<^verbatim>\<open>chat\<close> runs the node of \<^verbatim>\<open>conversation.ts\<close>, which has no such guard.)
\<close>

theorem chat_model_failure_propagates:
  assumes init: "initialized vb"
    and down: "\<forall>messages. llm E (length (llmLog w)) messages = Inl e"
  shows "(\<exists>e'. snd (chat ver E (w, vb) m) = Inl e')
    \<and> getHistory (snd (fst (chat ver E (w, vb) m))) = getHistory vb
    \<and> response (state (snd (fst (chat ver E (w, vb) m)))) = response (state vb)"
  using assms
  by (auto simp: chat_def chatApp_invoke_def generateConversationalResponse_def llm_invoke_def
      getHistory_def Let_def split: sum.splits)

text \<open>
  Ada's initialized Voiceboard, the model down: \<^verbatim>\<open>chat("hello")\<close> throws the model's
  error and the history is the greeting exchange, as before.
\<close>

theorem chat_model_failure_propagates_witness:
  "initialized (vb_ready ''Ada'')
   \<and> snd (chat Workflow_guarded E_llm_down (world_after ''Ada'', vb_ready ''Ada'') ''hello'')
       = Inl (Error ''model down'')
   \<and> getHistory (snd (fst (chat Workflow_guarded E_llm_down
        (world_after ''Ada'', vb_ready ''Ada'') ''hello''))) = [(Human, []), (AI, ''ok'')]"
  using chat_model_failure_propagates [of "vb_ready ''Ada''" E_llm_down "world_after ''Ada''"
      "Error ''model down''" Workflow_guarded "''hello''"]
  by (simp add: failing_defs E_ok_def)
    (simp add: chat_def chatApp_invoke_def generateConversationalResponse_def llm_invoke_def
      Let_def getHistory_def failing_defs sample_defs)

text \<open>
  C6 at the code: when the provider throws, both search nodes of \<^verbatim>\<open>src/workflow.ts\<close>
  throw what it threw; the nodes of the guarded copy return, with no tweets and with
  the other content as it was.
\<close>

theorem search_failure_propagates:
  assumes "\<forall>query. tavily E (length (searchLog w)) query = Inl e"
  shows "snd (searchRecentTweets_src E (w, s)) = Inl e
    \<and> snd (searchAdditionalSources_src E (w, s)) = Inl e
    \<and> snd (searchRecentTweets E (w, s)) =
        Inr (s\<lparr>tweets := [], searchAttempts := searchAttempts s + 1\<rparr>)
    \<and> snd (searchAdditionalSources E (w, s)) =
        Inr (s\<lparr>searchAttempts := searchAttempts s + 1\<rparr>)"
  using assms
  by (simp add: searchRecentTweets_src_def searchRecentTweets_def searchAdditionalSources_def
      searchAdditionalSources_src_def tavily_invoke_def Let_def)

text \<open>
  The provider down: the bare nodes throw its error; the guarded first node returns the
  state with no tweets and one attempt.
\<close>

theorem search_failure_propagates_witness:
  "snd (searchRecentTweets_src E_search_down (w0, person_state ''Ada'' 0)) = Inl (Error ''search down'')
   \<and> snd (searchAdditionalSources_src E_search_down (w0, person_state ''Ada'' 1))
       = Inl (Error ''search down'')
   \<and> snd (searchRecentTweets E_search_down (w0, person_state ''Ada'' 0))
       = Inr (person_state ''Ada'' 1)"
  using search_failure_propagates [of E_search_down w0 "Error ''search down''" "person_state ''Ada'' 0"]
    search_failure_propagates [of E_search_down w0 "Error ''search down''" "person_state ''Ada'' 1"]
  by (simp add: failing_defs E_ok_def) (simp add: person_state_def)

section \<open>The typing indicator\<close>

text \<open>
  C10. The chat handler emits nothing but an error when the message is empty or the
  socket has no Voiceboard. Otherwise it emits \<^verbatim>\<open>typing(true)\<close>, then the response or the
  error, then \<^verbatim>\<open>typing(false)\<close>: every \<^verbatim>\<open>typing(true)\<close> has a \<^verbatim>\<open>typing(false)\<close> after it.
\<close>

theorem on_chat_typing_closed:
  "typing_closed (snd (on_chat ver E c socket_id message'))
   \<and> (snd (on_chat ver E c socket_id message') = [ErrorMsg ''Message cannot be empty'']
      \<or> snd (on_chat ver E c socket_id message') = [ErrorMsg ''Please create a voiceboard first'']
      \<or> (\<exists>reply. snd (on_chat ver E c socket_id message') =
            [Typing True, ResponseMsg reply (timestamp E), Typing False])
      \<or> (\<exists>m. snd (on_chat ver E c socket_id message') = [Typing True, ErrorMsg m, Typing False]))"
  by (cases c) (auto simp: on_chat_def split: option.splits sum.splits prod.splits)

text \<open>
  A socket with Ada's Voiceboard: with the model up the events are typing, response,
  typing off; with the model down they are typing, error, typing off.
\<close>

theorem on_chat_typing_closed_witness:
  "snd (on_chat Workflow_guarded E_ok (world_after ''Ada'', srv_with ''sock'' (vb_ready ''Ada''))
      ''sock'' (Some ''hello''))
     = [Typing True, ResponseMsg ''ok'' (timestamp E_ok), Typing False]
   \<and> snd (on_chat Workflow_guarded E_llm_down
        (world_after ''Ada'', srv_with ''sock'' (vb_ready ''Ada'')) ''sock'' (Some ''hello''))
     = [Typing True, ErrorMsg ''model down'', Typing False]
   \<and> typing_closed (snd (on_chat Workflow_guarded E_llm_down
        (world_after ''Ada'', srv_with ''sock'' (vb_ready ''Ada'')) ''sock'' (Some ''hello'')))"
  using on_chat_typing_closed [of Workflow_guarded E_llm_down
      "(world_after ''Ada'', srv_with ''sock'' (vb_ready ''Ada''))" "''sock''" "Some ''hello''"]
  by (simp add: on_chat_def chat_def chatApp_invoke_def generateConversationalResponse_def
      llm_invoke_def Let_def message_or_def failing_defs sample_defs)

section \<open>The graph as declared\<close>

text \<open>
  What the declared graph does on an object that holds it, for either workflow module.
  These lemmas say what the methods \<^verbatim>\<open>initialize\<close> and \<^verbatim>\<open>chat\<close> do by it; as the file
  stands no object is constructed to hold it.
\<close>

lemma exec_search_node:
  assumes "n = SearchTweets \<or> n = SearchMore" and "exec_node ver E n (w, s) = (w', r)"
  shows "length (searchLog w') = length (searchLog w) + 1" and "llmLog w' = llmLog w"
    and "r = Inr s' \<Longrightarrow> searchAttempts s' = searchAttempts s + 1"
    and "r = Inr s' \<Longrightarrow> conversationHistory s' = conversationHistory s"
    and "r = Inr s' \<Longrightarrow> currentQuery s' = currentQuery s"
    and "r = Inr s' \<Longrightarrow> personName s' = personName s"
    and "ver = Workflow_guarded \<Longrightarrow> \<exists>t. r = Inr t"
  using assms
  by (cases ver; auto simp: searchRecentTweets_def searchRecentTweets_src_def merge_tweets_def
      searchAdditionalSources_def searchAdditionalSources_src_def tavily_invoke_def Let_def
      split: sum.splits json.splits if_splits)+

lemma exec_generate:
  assumes "exec_node ver E Generate (w, s) = (w', r)"
  shows "searchLog w' = searchLog w" and "length (llmLog w') \<le> length (llmLog w) + 1"
    and "r = Inr s' \<Longrightarrow> tweets s' = tweets s \<and> otherContent s' = otherContent s
          \<and> searchAttempts s' = searchAttempts s \<and> personName s' = personName s
          \<and> currentQuery s' = currentQuery s
          \<and> conversationHistory s' =
              conversationHistory s @ [(Human, currentQuery s), (AI, response s')]"
  using assms
  by (auto simp: generateConversationalResponse_def llm_invoke_def Let_def split: sum.splits)

lemma next_node_after_Evaluate:
  "next_node Evaluate s = Some n' \<Longrightarrow>
     (n' = SearchMore \<and> \<not> dataSufficient s \<and> searchAttempts s < 4) \<or>
     (n' = Generate \<and> (dataSufficient s \<or> 4 \<le> searchAttempts s))"
  by (auto simp: shouldSearchMore_def split: if_splits)

lemma next_node_None: "next_node n s = None \<longleftrightarrow> n = Generate"
  by (cases n) (simp_all add: shouldSearchMore_def)

lemma invoke_from_throw:
  "exec_node ver E n (w, s) = (w1, Inl e) \<Longrightarrow> invoke_from ver E n (w, s) = ([(n, s)], w1, Inl e)"
  by (simp add: invoke_from.simps)

lemma invoke_from_stop:
  "exec_node ver E n (w, s) = (w1, Inr s1) \<Longrightarrow> next_node n s1 = None \<Longrightarrow>
     invoke_from ver E n (w, s) = ([(n, s)], w1, Inr s1)"
  by (simp add: invoke_from.simps)

lemma invoke_from_step:
  "exec_node ver E n (w, s) = (w1, Inr s1) \<Longrightarrow> next_node n s1 = Some n1 \<Longrightarrow>
     invoke_from ver E n1 (w1, s1) = (tr1, w', r) \<Longrightarrow>
     invoke_from ver E n (w, s) = ((n, s) # tr1, w', r)"
  by (simp add: invoke_from.simps)

text \<open>The three ways a run from a node can go.\<close>

lemma invoke_from_cases:
  assumes "invoke_from ver E n (w, s) = (tr, w', r)"
  obtains (throw) e where "exec_node ver E n (w, s) = (w', Inl e)" "tr = [(n, s)]" "r = Inl e"
  | (stop) s1 where "exec_node ver E n (w, s) = (w', Inr s1)" "n = Generate" "tr = [(n, s)]"
      "r = Inr s1"
  | (step) w1 s1 n1 tr1 where "exec_node ver E n (w, s) = (w1, Inr s1)" "next_node n s1 = Some n1"
      "invoke_from ver E n1 (w1, s1) = (tr1, w', r)" "tr = (n, s) # tr1"
proof -
  obtain w1 r1 where ex: "exec_node ver E n (w, s) = (w1, r1)"
    by (cases "exec_node ver E n (w, s)")
  show thesis
  proof (cases r1)
    case (Inl e)
    with ex assms throw show thesis
      by (auto simp: invoke_from_throw)
  next
    case (Inr s1)
    show thesis
    proof (cases "next_node n s1")
      case None
      with ex Inr assms stop show thesis
        by (auto simp: invoke_from_stop next_node_None)
    next
      case (Some n1)
      obtain tr1 w2 r2 where run1: "invoke_from ver E n1 (w1, s1) = (tr1, w2, r2)"
        by (cases "invoke_from ver E n1 (w1, s1)")
      with ex Inr Some assms step show thesis
        by (auto simp: invoke_from_step)
    qed
  qed
qed

lemma invoke_from_search_calls:
  "invoke_from ver E n (w, s) = (tr, w', r) \<Longrightarrow>
     length (searchLog w') \<le> length (searchLog w) + rank n s div 2"
proof (induction ver E n "(w, s)" arbitrary: w s tr w' r rule: invoke_from.induct)
  case (1 ver E n w s)
  from "1.prems" show ?case
  proof (cases rule: invoke_from_cases)
    case (throw e)
    then show ?thesis
      using exec_search_node(1) [of n ver E w s w' r] exec_generate(1) [of ver E w s w' r]
      by (cases n) auto
  next
    case (stop s1)
    then show ?thesis
      using exec_generate(1) [of ver E w s w' r] by simp
  next
    case (step w1 s1 n1 tr1)
    have ih: "length (searchLog w') \<le> length (searchLog w1) + rank n1 s1 div 2"
      using "1.hyps" [OF step(1) [symmetric] refl step(2) step(3)] .
    show ?thesis
    proof (cases n)
      case SearchTweets
      with step ih exec_search_node(1) [of n ver E w s w1 "Inr s1"]
        exec_search_node(3) [of n ver E w s w1 "Inr s1" s1] show ?thesis
        by auto
    next
      case Evaluate
      with step ih next_node_after_Evaluate [of s1 n1] show ?thesis
        by (auto simp del: next_node.simps)
    next
      case SearchMore
      with step ih exec_search_node(1) [of n ver E w s w1 "Inr s1"]
        exec_search_node(3) [of n ver E w s w1 "Inr s1" s1] show ?thesis
        by auto
    next
      case Generate
      with step show ?thesis by simp
    qed
  qed
qed

lemma app_invoke_search_calls:
  assumes "app_invoke ver E (w, s) = (tr, w', r)" and "searchAttempts s = 0"
  shows "length (searchLog w') \<le> length (searchLog w) + 4"
  using invoke_from_search_calls [of ver E SearchTweets w s tr w' r] assms
  by (simp add: app_invoke_def)

text \<open>
  A run never enters more nodes than the rank of its start allows: at most 9 from a
  fresh state, below the 25 steps the graph library allows a run by default.
\<close>

lemma invoke_from_length:
  "invoke_from ver E n (w, s) = (tr, w', r) \<Longrightarrow> length tr \<le> rank n s + 1"
proof (induction ver E n "(w, s)" arbitrary: w s tr rule: invoke_from.induct)
  case (1 ver E n w s)
  from "1.prems" show ?case
  proof (cases rule: invoke_from_cases)
    case (throw e)
    then show ?thesis by simp
  next
    case (stop s1)
    then show ?thesis by simp
  next
    case (step w1 s1 n1 tr1)
    have ih: "length tr1 \<le> rank n1 s1 + 1"
      using "1.hyps" [OF step(1) [symmetric] refl step(2) step(3)] .
    show ?thesis
    proof (cases n)
      case SearchTweets
      with step ih exec_search_node(3) [of n ver E w s w1 "Inr s1" s1] show ?thesis
        by auto
    next
      case Evaluate
      with step ih next_node_after_Evaluate [of s1 n1] show ?thesis
        by (auto simp del: next_node.simps)
    next
      case SearchMore
      with step ih exec_search_node(3) [of n ver E w s w1 "Inr s1" s1] show ?thesis
        by auto
    next
      case Generate
      with step show ?thesis by simp
    qed
  qed
qed

lemma app_invoke_length:
  assumes "app_invoke ver E (w, s) = (tr, w', r)" and "searchAttempts s = 0"
  shows "length tr \<le> 9"
  using invoke_from_length [of ver E SearchTweets w s tr w' r] assms
  by (simp add: app_invoke_def)

lemma invoke_from_result:
  "invoke_from ver E n (w, s) = (tr, w', Inr s') \<Longrightarrow>
     conversationHistory s' = conversationHistory s @ [(Human, currentQuery s), (AI, response s')]
     \<and> currentQuery s' = currentQuery s \<and> personName s' = personName s
     \<and> fst (last tr) = Generate \<and> currentQuery (snd (last tr)) = currentQuery s"
proof (induction ver E n "(w, s)" arbitrary: w s tr rule: invoke_from.induct)
  case (1 ver E n w s)
  from "1.prems" show ?case
  proof (cases rule: invoke_from_cases)
    case (throw e)
    then show ?thesis by simp
  next
    case (stop s1)
    then show ?thesis
      using exec_generate(3) [of ver E w s w' "Inr s1" s1] by simp
  next
    case (step w1 s1 n1 tr1)
    have ih: "conversationHistory s' =
        conversationHistory s1 @ [(Human, currentQuery s1), (AI, response s')]
      \<and> currentQuery s' = currentQuery s1 \<and> personName s' = personName s1
      \<and> fst (last tr1) = Generate \<and> currentQuery (snd (last tr1)) = currentQuery s1"
      using "1.hyps" [OF step(1) [symmetric] refl step(2) step(3)] .
    have ne: "tr1 \<noteq> []"
      using step(3) by (cases rule: invoke_from_cases) auto
    have keep: "conversationHistory s1 = conversationHistory s \<and> currentQuery s1 = currentQuery s
      \<and> personName s1 = personName s"
    proof (cases n)
      case Evaluate
      with step(1) show ?thesis by auto
    next
      case Generate
      with step(2) show ?thesis by simp
    next
      case SearchTweets
      then show ?thesis
        using step(1) exec_search_node(4-6) [of n ver E w s w1 "Inr s1" s1] by simp
    next
      case SearchMore
      then show ?thesis
        using step(1) exec_search_node(4-6) [of n ver E w s w1 "Inr s1" s1] by simp
    qed
    from ih keep ne step(4) show ?thesis by simp
  qed
qed

lemma evaluate_round:
  assumes run: "invoke_from Workflow_guarded E Evaluate (w, s) = (tr, w', r)"
    and lt: "searchAttempts s < 4"
    and insufficient: "\<not> dataSufficient (evaluateData (currentYear E) s)"
  obtains w2 s2 tr2 where "tr = (Evaluate, s) # (SearchMore, evaluateData (currentYear E) s) # tr2"
    and "invoke_from Workflow_guarded E Evaluate (w2, s2) = (tr2, w', r)"
    and "searchAttempts s2 = searchAttempts s + 1"
    and "length (searchLog w2) = length (searchLog w) + 1"
proof -
  from run show thesis
  proof (cases rule: invoke_from_cases)
    case (throw e)
    then show thesis by simp
  next
    case (stop s1)
    then show thesis by simp
  next
    case (step w1 s1 n1 tr1)
    then have s1: "s1 = evaluateData (currentYear E) s" and w1: "w1 = w"
      by auto
    have n1: "n1 = SearchMore"
      using next_node_after_Evaluate [OF step(2)] lt insufficient s1 by auto
    from step(3) show thesis
    proof (cases rule: invoke_from_cases)
      case (throw e)
      then show thesis
        using exec_search_node(7) [of n1 Workflow_guarded E w1 s1 w' "Inl e"] n1 by auto
    next
      case (stop s2)
      with n1 show thesis by simp
    next
      case inner: (step w2 s2 n2 tr2)
      have "n2 = Evaluate"
        using inner(2) n1 by simp
      moreover have "searchAttempts s2 = searchAttempts s + 1"
        using exec_search_node(3) [of n1 Workflow_guarded E w1 s1 w2 "Inr s2" s2] inner(1) n1 s1
        by simp
      moreover have "length (searchLog w2) = length (searchLog w) + 1"
        using exec_search_node(1) [of n1 Workflow_guarded E w1 s1 w2 "Inr s2"] inner(1) n1 w1
        by simp
      ultimately show thesis
        using that [of tr2 w2 s2] inner(3,4) step(4) s1 n1 by simp
    qed
  qed
qed

lemma evaluate_last:
  assumes run: "invoke_from ver E Evaluate (w, s) = (tr, w', r)"
    and ge: "4 \<le> searchAttempts s"
  shows "tr = [(Evaluate, s), (Generate, evaluateData (currentYear E) s)]
    \<and> searchLog w' = searchLog w"
proof -
  from run show ?thesis
  proof (cases rule: invoke_from_cases)
    case (throw e)
    then show ?thesis by simp
  next
    case (stop s1)
    then show ?thesis by simp
  next
    case (step w1 s1 n1 tr1)
    then have s1: "s1 = evaluateData (currentYear E) s" and w1: "w1 = w"
      by auto
    have n1: "n1 = Generate"
      using next_node_after_Evaluate [OF step(2)] ge s1 by auto
    from step(3) show ?thesis
    proof (cases rule: invoke_from_cases)
      case (throw e)
      then show ?thesis
        using exec_generate(1) [of ver E w1 s1 w' "Inl e"] n1 s1 w1 step(4) by simp
    next
      case (stop s2)
      then show ?thesis
        using exec_generate(1) [of ver E w1 s1 w' "Inr s2"] n1 s1 w1 step(4) by simp
    next
      case inner: (step w2 s2 n2 tr2)
      with n1 show ?thesis by simp
    qed
  qed
qed

lemma search_tweets_round:
  assumes run: "invoke_from Workflow_guarded E SearchTweets (w, s) = (tr, w', r)"
  obtains w1 s1 tr1 where "tr = (SearchTweets, s) # tr1"
    and "invoke_from Workflow_guarded E Evaluate (w1, s1) = (tr1, w', r)"
    and "searchAttempts s1 = searchAttempts s + 1"
    and "length (searchLog w1) = length (searchLog w) + 1"
proof -
  from run show thesis
  proof (cases rule: invoke_from_cases)
    case (throw e)
    then show thesis
      using exec_search_node(7) [of SearchTweets Workflow_guarded E w s w' "Inl e"] by auto
  next
    case (stop s1)
    then show thesis by simp
  next
    case (step w1 s1 n1 tr1)
    have "n1 = Evaluate"
      using step(2) by simp
    moreover have "searchAttempts s1 = searchAttempts s + 1"
      using exec_search_node(3) [of SearchTweets Workflow_guarded E w s w1 "Inr s1" s1] step(1)
      by simp
    moreover have "length (searchLog w1) = length (searchLog w) + 1"
      using exec_search_node(1) [of SearchTweets Workflow_guarded E w s w1 "Inr s1"] step(1)
      by simp
    ultimately show thesis
      using that [of tr1 w1 s1] step(3,4) by simp
  qed
qed

lemma forced_generate:
  assumes run: "app_invoke Workflow_guarded E (w, s) = (tr, w', r)"
    and zero: "searchAttempts s = 0"
    and never: "\<forall>(n, t) \<in> set tr. n = Evaluate \<longrightarrow> \<not> dataSufficient (evaluateData (currentYear E) t)"
  shows "map fst tr = forced_path
    \<and> map (\<lambda>(n, t). searchAttempts t) tr = [0, 1, 1, 2, 2, 3, 3, 4, 4]
    \<and> length (searchLog w') = length (searchLog w) + 4"
proof -
  have run0: "invoke_from Workflow_guarded E SearchTweets (w, s) = (tr, w', r)"
    using run by (simp add: app_invoke_def)
  obtain w1 s1 tr1 where tr: "tr = (SearchTweets, s) # tr1"
    and run1: "invoke_from Workflow_guarded E Evaluate (w1, s1) = (tr1, w', r)"
    and a1: "searchAttempts s1 = searchAttempts s + 1"
    and l1: "length (searchLog w1) = length (searchLog w) + 1"
    by (rule search_tweets_round [OF run0])
  have h1: "tr1 = (Evaluate, s1) # tl tr1"
    using run1 by (cases rule: invoke_from_cases) simp_all
  have i1: "\<not> dataSufficient (evaluateData (currentYear E) s1)"
    using never tr h1 by (metis (mono_tags, lifting) case_prodD list.set_intros(1,2))
  have lt1: "searchAttempts s1 < 4"
    using a1 zero by simp
  obtain w2 s2 tr2
    where tr1: "tr1 = (Evaluate, s1) # (SearchMore, evaluateData (currentYear E) s1) # tr2"
    and run2: "invoke_from Workflow_guarded E Evaluate (w2, s2) = (tr2, w', r)"
    and a2: "searchAttempts s2 = searchAttempts s1 + 1"
    and l2: "length (searchLog w2) = length (searchLog w1) + 1"
    by (rule evaluate_round [OF run1 lt1 i1])
  have h2: "tr2 = (Evaluate, s2) # tl tr2"
    using run2 by (cases rule: invoke_from_cases) simp_all
  have i2: "\<not> dataSufficient (evaluateData (currentYear E) s2)"
    using never tr tr1 h2 by (metis (mono_tags, lifting) case_prodD list.set_intros(1,2))
  have lt2: "searchAttempts s2 < 4"
    using a1 a2 zero by simp
  obtain w3 s3 tr3
    where tr2: "tr2 = (Evaluate, s2) # (SearchMore, evaluateData (currentYear E) s2) # tr3"
    and run3: "invoke_from Workflow_guarded E Evaluate (w3, s3) = (tr3, w', r)"
    and a3: "searchAttempts s3 = searchAttempts s2 + 1"
    and l3: "length (searchLog w3) = length (searchLog w2) + 1"
    by (rule evaluate_round [OF run2 lt2 i2])
  have h3: "tr3 = (Evaluate, s3) # tl tr3"
    using run3 by (cases rule: invoke_from_cases) simp_all
  have i3: "\<not> dataSufficient (evaluateData (currentYear E) s3)"
    using never tr tr1 tr2 h3 by (metis (mono_tags, lifting) case_prodD list.set_intros(1,2))
  have lt3: "searchAttempts s3 < 4"
    using a1 a2 a3 zero by simp
  obtain w4 s4 tr4
    where tr3: "tr3 = (Evaluate, s3) # (SearchMore, evaluateData (currentYear E) s3) # tr4"
    and run4: "invoke_from Workflow_guarded E Evaluate (w4, s4) = (tr4, w', r)"
    and a4: "searchAttempts s4 = searchAttempts s3 + 1"
    and l4: "length (searchLog w4) = length (searchLog w3) + 1"
    by (rule evaluate_round [OF run3 lt3 i3])
  have ge4: "4 \<le> searchAttempts s4"
    using a1 a2 a3 a4 zero by simp
  have tr4: "tr4 = [(Evaluate, s4), (Generate, evaluateData (currentYear E) s4)]"
    and l5: "searchLog w' = searchLog w4"
    using evaluate_last [OF run4 ge4] by simp_all
  show ?thesis
    using tr tr1 tr2 tr3 tr4 zero a1 a2 a3 a4 l1 l2 l3 l4 l5
    by (simp add: forced_path_def)
qed

text \<open>
  A run of the declared graph from no attempts makes at most 4 search calls. With the
  guarded module, when the evaluator answers false at every pass, it takes the path
  search, three times evaluate and search-more, evaluate, generate, with the attempt
  count going 0, 1, 2, 3, 4. A search node that returns adds 1 to the count.
\<close>

lemma declared_search_bound:
  assumes run: "app_invoke ver E (w, s) = (tr, w', r)" and zero: "searchAttempts s = 0"
  shows "length (searchLog w') \<le> length (searchLog w) + 5
    \<and> length (searchLog w') \<le> length (searchLog w) + 4
    \<and> (ver = Workflow_guarded \<and>
        (\<forall>(n, t) \<in> set tr. n = Evaluate \<longrightarrow> \<not> dataSufficient (evaluateData (currentYear E) t)) \<longrightarrow>
          map fst tr = [SearchTweets, Evaluate, SearchMore, Evaluate, SearchMore, Evaluate,
                        SearchMore, Evaluate, Generate]
          \<and> map (\<lambda>(n, t). searchAttempts t) tr = [0, 1, 1, 2, 2, 3, 3, 4, 4]
          \<and> length (searchLog w') = length (searchLog w) + 4)
    \<and> (\<forall>n c w1 t. (n = SearchTweets \<or> n = SearchMore) \<and> exec_node ver E n c = (w1, Inr t) \<longrightarrow>
          searchAttempts t = searchAttempts (snd c) + 1)"
proof -
  have tight: "length (searchLog w') \<le> length (searchLog w) + 4"
    using app_invoke_search_calls [OF run zero] .
  then have calls: "length (searchLog w') \<le> length (searchLog w) + 5"
    by simp
  have forced: "ver = Workflow_guarded \<and>
        (\<forall>(n, t) \<in> set tr. n = Evaluate \<longrightarrow> \<not> dataSufficient (evaluateData (currentYear E) t)) \<longrightarrow>
          map fst tr = [SearchTweets, Evaluate, SearchMore, Evaluate, SearchMore, Evaluate,
                        SearchMore, Evaluate, Generate]
          \<and> map (\<lambda>(n, t). searchAttempts t) tr = [0, 1, 1, 2, 2, 3, 3, 4, 4]
          \<and> length (searchLog w') = length (searchLog w) + 4"
  proof (intro impI)
    assume h: "ver = Workflow_guarded \<and>
        (\<forall>(n, t) \<in> set tr. n = Evaluate \<longrightarrow> \<not> dataSufficient (evaluateData (currentYear E) t))"
    then have run': "app_invoke Workflow_guarded E (w, s) = (tr, w', r)"
      using run by simp
    from h have never: "\<forall>(n, t) \<in> set tr.
        n = Evaluate \<longrightarrow> \<not> dataSufficient (evaluateData (currentYear E) t)"
      by simp
    from forced_generate [OF run' zero never]
    show "map fst tr = [SearchTweets, Evaluate, SearchMore, Evaluate, SearchMore, Evaluate,
                        SearchMore, Evaluate, Generate]
          \<and> map (\<lambda>(n, t). searchAttempts t) tr = [0, 1, 1, 2, 2, 3, 3, 4, 4]
          \<and> length (searchLog w') = length (searchLog w) + 4"
      by (simp add: forced_path_def)
  qed
  have step: "\<forall>n c w1 t. (n = SearchTweets \<or> n = SearchMore) \<and> exec_node ver E n c = (w1, Inr t) \<longrightarrow>
          searchAttempts t = searchAttempts (snd c) + 1"
  proof (intro allI impI)
    fix n c w1 t
    assume h: "(n = SearchTweets \<or> n = SearchMore) \<and> exec_node ver E n c = (w1, Inr t)"
    then show "searchAttempts t = searchAttempts (snd c) + 1"
      using exec_search_node(3) [of n ver E "fst c" "snd c" w1 "Inr t" t] by simp
  qed
  from calls tight forced step show ?thesis by blast
qed

text \<open>
  A run that returns has ended in generate, entered with the query the run started
  with, and has appended that query and the reply to the history.
\<close>

lemma declared_initialize_history:
  assumes init: "initialize ver E (w, Voiceboard_fields name) = ((w', vb'), Inr u)"
  shows "getHistory vb' = [(Human, []), (AI, response (state vb'))] \<and> initialized vb'"
proof -
  obtain tr w1 r where run: "app_invoke ver E (w, state (Voiceboard_fields name)) = (tr, w1, r)"
    by (cases "app_invoke ver E (w, state (Voiceboard_fields name))")
  from init run obtain s' where r: "r = Inr s'"
    and vb': "vb' = (Voiceboard_fields name)\<lparr>state := s', initialized := True\<rparr>"
    by (cases r) (auto simp: initialize_def Voiceboard_fields_def)
  have "invoke_from ver E SearchTweets (w, state (Voiceboard_fields name)) = (tr, w1, Inr s')"
    using run r by (simp add: app_invoke_def)
  from invoke_from_result [OF this] run vb' show ?thesis
    by (simp add: getHistory_def Voiceboard_fields_def)
qed

text \<open>
  The sample run: every search returns no result and the model answers \<open>ok\<close>. It
  leaves the world and the Voiceboard that the samples \<^const>\<open>world_after\<close> and
  \<^const>\<open>vb_ready\<close> name.
\<close>

lemma run_ok:
  "app_invoke ver E_ok (w0, person_state name 0) =
     (person_trace name, world_after name, Inr (person_ready name))"
  by (cases ver) (simp_all add: app_invoke_def invoke_from.simps sample_defs node_defs)

text \<open>
  With the nodes of \<^verbatim>\<open>src/workflow.ts\<close> and the provider down, the run ends in its first
  node with the provider's error, at no attempt.
\<close>

lemma declared_src_aborts:
  "app_invoke Workflow_src E_search_down (w0, person_state name 0) =
     ([(SearchTweets, person_state name 0)],
      w0\<lparr>searchLog := [name @ '' tweets after:2025-11-02'']\<rparr>, Inl (Error ''search down''))"
  by (simp add: app_invoke_def invoke_from.simps failing_defs sample_defs node_defs)

lemma Voiceboard_fields_state: "state (Voiceboard_fields name) = person_state name 0"
  by (simp add: Voiceboard_fields_def person_state_def)

lemma initialize_ok:
  "initialize ver E_ok (w0, Voiceboard_fields name) = ((world_after name, vb_ready name), Inr ())"
  by (simp add: initialize_def Voiceboard_fields_state run_ok)
    (simp add: Voiceboard_fields_def vb_ready_def)

subsection \<open>Counting runs\<close>

lemma additional_query_not_initial: "additional_query s \<noteq> initial_query E (personName s)"
  by (simp add: additional_query_def initial_query_def)

lemma exec_node_runs:
  assumes "exec_node ver E n (w, s) = (w', r)"
  shows "workflow_runs E (personName s) w' =
           workflow_runs E (personName s) w + (if n = SearchTweets then 1 else 0)"
proof (cases n)
  case SearchTweets
  with assms show ?thesis
    by (cases ver)
      (auto simp: workflow_runs_def initial_query_def searchRecentTweets_def
        searchRecentTweets_src_def merge_tweets_def tavily_invoke_def Let_def
        split: sum.splits json.splits if_splits)
next
  case Evaluate
  with assms show ?thesis by auto
next
  case SearchMore
  with assms additional_query_not_initial [of s E] show ?thesis
    by (cases ver)
      (auto simp: workflow_runs_def searchAdditionalSources_def
        searchAdditionalSources_src_def tavily_invoke_def Let_def split: sum.splits)
next
  case Generate
  with assms exec_generate(1) [of ver E w s w' r] show ?thesis
    by (simp add: workflow_runs_def)
qed

lemma exec_node_personName:
  assumes "exec_node ver E n (w, s) = (w', Inr s')"
  shows "personName s' = personName s"
proof (cases n)
  case Evaluate
  with assms show ?thesis by auto
next
  case Generate
  with assms exec_generate(3) [of ver E w s w' "Inr s'" s'] show ?thesis by simp
next
  case SearchTweets
  with assms exec_search_node(6) [of n ver E w s w' "Inr s'" s'] show ?thesis by simp
next
  case SearchMore
  with assms exec_search_node(6) [of n ver E w s w' "Inr s'" s'] show ?thesis by simp
qed

lemma invoke_from_runs:
  "invoke_from ver E n (w, s) = (tr, w', r) \<Longrightarrow>
     workflow_runs E (personName s) w' =
       workflow_runs E (personName s) w + (if n = SearchTweets then 1 else 0)"
proof (induction ver E n "(w, s)" arbitrary: w s tr rule: invoke_from.induct)
  case (1 ver E n w s)
  from "1.prems" show ?case
  proof (cases rule: invoke_from_cases)
    case (throw e)
    then show ?thesis using exec_node_runs [of ver E n w s w' "Inl e"] by simp
  next
    case (stop s1)
    then show ?thesis using exec_node_runs [of ver E n w s w' "Inr s1"] by simp
  next
    case (step w1 s1 n1 tr1)
    have ih: "workflow_runs E (personName s1) w' =
        workflow_runs E (personName s1) w1 + (if n1 = SearchTweets then 1 else 0)"
      using "1.hyps" [OF step(1) [symmetric] refl step(2) step(3)] .
    have "n1 \<noteq> SearchTweets"
      using step(2) by (cases n) (auto simp: shouldSearchMore_def split: if_splits)
    with ih exec_node_runs [OF step(1)] exec_node_personName [OF step(1)] show ?thesis
      by simp
  qed
qed

subsection \<open>The effect of a chat\<close>

lemma chat_initialized:
  assumes "initialized vb" and "chat ver E (w, vb) m = ((w', vb'), r)"
  shows "searchLog w' = searchLog w \<and> initialized vb'
    \<and> tweets (state vb') = tweets (state vb) \<and> otherContent (state vb') = otherContent (state vb)
    \<and> searchAttempts (state vb') = searchAttempts (state vb)
    \<and> length (llmLog w') \<le> length (llmLog w) + 1"
proof -
  obtain w2 r2 where gen: "exec_node ver E Generate (w, (state vb)\<lparr>currentQuery := m\<rparr>) = (w2, r2)"
    by (cases "exec_node ver E Generate (w, (state vb)\<lparr>currentQuery := m\<rparr>)")
  show ?thesis
  proof (cases r2)
    case (Inl e)
    with assms gen exec_generate(1,2) [OF gen] show ?thesis
      by (auto simp: chat_def chatApp_invoke_def)
  next
    case (Inr s')
    with assms gen exec_generate(1,2) [OF gen] exec_generate(3) [OF gen Inr] show ?thesis
      by (auto simp: chat_def chatApp_invoke_def)
  qed
qed

lemma chats_initialized:
  "initialized vb \<Longrightarrow> chats ver E (w, vb) ms = (w', vb') \<Longrightarrow>
     searchLog w' = searchLog w \<and> initialized vb'
     \<and> tweets (state vb') = tweets (state vb) \<and> otherContent (state vb') = otherContent (state vb)
     \<and> searchAttempts (state vb') = searchAttempts (state vb)
     \<and> length (llmLog w') \<le> length (llmLog w) + length ms"
proof (induction ms arbitrary: w vb)
  case Nil
  then show ?case by simp
next
  case (Cons m ms)
  obtain w1 vb1 r1 where c: "chat ver E (w, vb) m = ((w1, vb1), r1)"
    by (metis surj_pair)
  from chat_initialized [OF Cons.prems(1) c] Cons.IH [of vb1 w1] Cons.prems(2) c
  show ?case by simp
qed

lemma chat_uninitialized_runs:
  assumes "\<not> initialized vb"
  shows "workflow_runs E (personName (state vb)) (fst (fst (chat ver E (w, vb) m))) =
           workflow_runs E (personName (state vb)) w + 1"
proof -
  obtain tr w1 r where run: "invoke_from ver E SearchTweets (w, state vb) = (tr, w1, r)"
    by (metis surj_pair)
  have runs1: "workflow_runs E (personName (state vb)) w1 =
      workflow_runs E (personName (state vb)) w + 1"
    using invoke_from_runs [OF run] by simp
  show ?thesis
  proof (cases r)
    case (Inl e)
    with assms run runs1 show ?thesis
      by (simp add: chat_def initialize_def app_invoke_def)
  next
    case (Inr s')
    obtain w2 r2 where gen: "exec_node ver E Generate (w1, s'\<lparr>currentQuery := m\<rparr>) = (w2, r2)"
      by (metis surj_pair)
    have "personName s' = personName (state vb)"
      using invoke_from_result [of ver E SearchTweets w "state vb" tr w1 s'] run Inr by simp
    moreover have "searchLog w2 = searchLog w1"
      using exec_generate(1) [OF gen] .
    ultimately show ?thesis
      using assms run runs1 Inr gen
      by (cases r2) (simp_all add: chat_def initialize_def app_invoke_def chatApp_invoke_def
          workflow_runs_def)
  qed
qed

lemma chat_success_initialized:
  assumes "chat ver E (w, vb) m = ((w', vb'), Inr reply)"
  shows "initialized vb'"
  using assms
  by (auto simp: chat_def initialize_def chatApp_invoke_def split: if_splits sum.splits prod.splits)

text \<open>
  The flag after a \<^verbatim>\<open>chat\<close> on an uninitialized object: it is set when the run of the
  declared graph returned, also when the generate step of the \<^verbatim>\<open>chat\<close> then throws, and
  it stays unset, with the object as it was, when the run threw.
\<close>

lemma chat_uninitialized_flag:
  assumes "\<not> initialized vb" and "chat ver E (w, vb) m = ((w', vb'), r)"
  shows "initialized vb' \<longleftrightarrow> (\<exists>tr w1 s1. app_invoke ver E (w, state vb) = (tr, w1, Inr s1))"
    and "\<not> initialized vb' \<Longrightarrow> vb' = vb \<and> (\<exists>e. r = Inl e)"
  using assms
  by (auto simp: chat_def initialize_def chatApp_invoke_def Let_def
      split: sum.splits prod.splits)

text \<open>
  When the model throws in the first run and answers afterwards, the first \<^verbatim>\<open>chat\<close> on
  an object with the fields of the constructor leaves it uninitialized, and a second
  \<^verbatim>\<open>chat\<close> runs the declared graph again.
\<close>

lemma chat_flaky_first:
  "chat ver E_flaky (w0, Voiceboard_fields name) m =
     ((world_after name, Voiceboard_fields name), Inl (Error ''model down''))"
  by (cases ver)
    (simp_all add: chat_def initialize_def Voiceboard_fields_def app_invoke_def invoke_from.simps
      failing_defs sample_defs node_defs)

lemma chat_flaky_second:
  "workflow_runs E_flaky name
     (fst (chats ver E_flaky (w0, Voiceboard_fields name) [m, m'])) = 2"
proof -
  have first: "workflow_runs E_flaky name (world_after name) = 1"
    by (simp add: workflow_runs_def initial_query_def failing_defs sample_defs)
  have "workflow_runs E_flaky (personName (state (Voiceboard_fields name)))
      (fst (fst (chat ver E_flaky (world_after name, Voiceboard_fields name) m')))
    = workflow_runs E_flaky (personName (state (Voiceboard_fields name))) (world_after name) + 1"
    by (rule chat_uninitialized_runs) (simp add: Voiceboard_fields_def)
  then show ?thesis
    using first by (simp add: chat_flaky_first) (simp add: Voiceboard_fields_def)
qed

end
